theory Spec2Isabelle
  imports Complex_Main "HOL-Library.Log_Nat"
begin

section \<open>Schematic field placement (src/text/sch_field.ts)\<close>

text \<open>
  The class \<open>SchField\<close> of \<open>src/text/sch_field.ts\<close> computes where the text of a symbol
  field is drawn: its rotation, its position, its bounding box and its effective
  justification, given an optional parent symbol with a position and a transform.

  The classes it builds on (\<open>Vec2\<close>, \<open>Matrix3\<close>, \<open>Angle\<close>, \<open>BBox\<close>, \<open>EDAText\<close>) are not
  among the sources. The data they carry is modelled from the specification; what
  needs font metrics or trigonometry (\<open>get_text_box\<close>, \<open>rotate_point\<close>, the centre of a
  box) is a parameter of the model.
\<close>

subsection \<open>Rounding to a double\<close>

text \<open>
  A TypeScript \<open>number\<close> is an IEEE 754 double. A finite double is modelled as the rational
  it denotes: an integer of at most 53 bits times a power of two, the exponent not below
  -1074. \<open>fl q\<close> is the double nearest to the rational \<open>q\<close>, ties going to the even
  significand: \<open>binade q\<close> is the exponent \<open>e\<close> with \<open>2 powi e \<le> \<bar>q\<bar> < 2 powi (e + 1)\<close>, the
  last place of a double in that binade is \<open>2 powi (e - 52)\<close>, and -1022 is the least
  exponent of a normal double, below which the last place stays \<open>2 powi (- 1074)\<close>.
  Infinities, NaN and the sign of zero are not modelled, and the exponent is not bounded
  above: all inputs are finite coordinates, and no result is taken to overflow.
\<close>

definition round_half_even :: "rat \<Rightarrow> int" where
  "round_half_even q =
     (let n = \<lfloor>q\<rfloor>; r = q - of_int n
      in if r < 1 / 2 then n
         else if 1 / 2 < r then n + 1
         else if even n then n else n + 1)"

definition binade :: "rat \<Rightarrow> int" where
  "binade q =
     (let (a, b) = quotient_of \<bar>q\<bar>; k = bitlen a - bitlen b
      in if 2 powi k \<le> \<bar>q\<bar> then k else k - 1)"

definition fl :: "rat \<Rightarrow> rat" where
  "fl q =
     (if q = 0 then 0
      else let u = max (binade q) (- 1022) - 52
           in of_int (round_half_even (q / 2 powi u)) * 2 powi u)"

text \<open>
  The type of the doubles needs rounding to be idempotent: a rounded value is a double, and
  a double rounds to itself.
\<close>

lemma round_half_even_of_int: "round_half_even (of_int n) = n"
  by (simp add: round_half_even_def)

lemma round_half_even_cases:
  "round_half_even q = \<lfloor>q\<rfloor> \<or> (round_half_even q = \<lfloor>q\<rfloor> + 1 \<and> of_int \<lfloor>q\<rfloor> < q)"
  by (auto simp add: round_half_even_def Let_def)

lemma round_half_even_le: "q \<le> of_int m \<Longrightarrow> round_half_even q \<le> m"
proof -
  assume a: "q \<le> of_int m"
  have "of_int \<lfloor>q\<rfloor> \<le> q" by (rule of_int_floor_le)
  then have "of_int \<lfloor>q\<rfloor> \<le> (of_int m :: rat)" using a by (rule order_trans)
  then have f: "\<lfloor>q\<rfloor> \<le> m" by (simp only: of_int_le_iff)
  from round_half_even_cases [of q] show ?thesis
  proof
    assume "round_half_even q = \<lfloor>q\<rfloor>"
    with f show ?thesis by simp
  next
    assume h: "round_half_even q = \<lfloor>q\<rfloor> + 1 \<and> of_int \<lfloor>q\<rfloor> < q"
    then have "of_int \<lfloor>q\<rfloor> < (of_int m :: rat)" using a by linarith
    then have "\<lfloor>q\<rfloor> < m" by (simp only: of_int_less_iff)
    with h show ?thesis by simp
  qed
qed

lemma round_half_even_ge: "of_int m \<le> q \<Longrightarrow> m \<le> round_half_even q"
proof -
  assume "of_int m \<le> q"
  then have "m \<le> \<lfloor>q\<rfloor>" by (simp add: le_floor_iff)
  with round_half_even_cases [of q] show ?thesis by auto
qed

lemma bitlen_rat_bounds:
  assumes "0 < a"
  shows "2 powi (bitlen a - 1) \<le> (of_int a :: rat)" and "(of_int a :: rat) < 2 powi bitlen a"
proof -
  from assms have b: "bitlen a \<ge> 1" by (auto simp: bitlen_alt_def)
  from bitlen_bounds [OF assms] have l: "2 ^ nat (bitlen a - 1) \<le> a" and u: "a < 2 ^ nat (bitlen a)"
    by simp_all
  from l have "(of_int (2 ^ nat (bitlen a - 1)) :: rat) \<le> of_int a"
    by (simp only: of_int_le_iff)
  then show "2 powi (bitlen a - 1) \<le> (of_int a :: rat)"
    using b by (simp add: power_int_def)
  from u have "(of_int a :: rat) < of_int (2 ^ nat (bitlen a))"
    by (simp only: of_int_less_iff)
  then show "(of_int a :: rat) < 2 powi bitlen a"
    using b by (simp add: power_int_def)
qed

lemma binade_bounds:
  assumes "q \<noteq> 0"
  shows "2 powi binade q \<le> \<bar>q\<bar>" and "\<bar>q\<bar> < 2 powi (binade q + 1)"
proof -
  obtain a b where ab: "quotient_of \<bar>q\<bar> = (a, b)" by (cases "quotient_of \<bar>q\<bar>")
  then have bpos: "0 < b" and q: "\<bar>q\<bar> = of_int a / of_int b"
    by (simp_all add: quotient_of_denom_pos quotient_of_div)
  from assms have "0 < \<bar>q\<bar>" by simp
  with q bpos have apos: "0 < a"
    by (simp add: zero_less_divide_iff)
  let ?k = "bitlen a - bitlen b"
  have lo: "2 powi (?k - 1) < \<bar>q\<bar>"
  proof -
    have "(2 powi (bitlen a - 1) :: rat) / 2 powi bitlen b < of_int a / of_int b"
      using bitlen_rat_bounds(1) [OF apos] bitlen_rat_bounds(2) [OF bpos] bpos
      by (intro frac_less2) simp_all
    also have "(2 powi (bitlen a - 1) :: rat) / 2 powi bitlen b = 2 powi (?k - 1)"
      by (simp add: power_int_diff)
    finally show ?thesis by (simp only: q)
  qed
  have hi: "\<bar>q\<bar> < 2 powi (?k + 1)"
  proof -
    have "of_int a / of_int b < (2 powi bitlen a :: rat) / 2 powi (bitlen b - 1)"
      using bitlen_rat_bounds(2) [OF apos] bitlen_rat_bounds(1) [OF bpos] apos
      by (intro frac_less) simp_all
    also have "\<dots> = 2 powi (?k + 1)"
      by (simp add: power_int_diff power_int_add)
    finally show ?thesis by (simp only: q)
  qed
  have bd: "binade q = (if 2 powi ?k \<le> \<bar>q\<bar> then ?k else ?k - 1)"
    by (simp add: binade_def ab Let_def)
  show "2 powi binade q \<le> \<bar>q\<bar>"
  proof (cases "2 powi ?k \<le> \<bar>q\<bar>")
    case True
    then show ?thesis by (simp only: bd if_True)
  next
    case False
    with lo show ?thesis by (simp only: bd if_False less_imp_le)
  qed
  show "\<bar>q\<bar> < 2 powi (binade q + 1)"
  proof (cases "2 powi ?k \<le> \<bar>q\<bar>")
    case True
    with hi show ?thesis by (simp only: bd if_True)
  next
    case False
    then have "\<bar>q\<bar> < 2 powi (?k - 1 + 1)" by simp
    then show ?thesis using False by (simp only: bd if_False)
  qed
qed


lemma fl_0: "fl 0 = 0"
  by (simp add: fl_def)

lemma power_int_less_exp: "(2::rat) powi a < 2 powi b \<Longrightarrow> a < b"
proof (rule ccontr)
  assume l: "(2::rat) powi a < 2 powi b" and "\<not> a < b"
  then have "b \<le> a" by simp
  then have "(2::rat) powi b \<le> 2 powi a" by (rule power_int_increasing) simp
  with l show False by simp
qed

lemma fl_fix_less:
  assumes n: "\<bar>n\<bar> < 2 ^ 53" and u: "- 1074 \<le> u"
  shows "fl (of_int n * 2 powi u) = of_int n * 2 powi u"
proof (cases "n = 0")
  case True
  then show ?thesis by (simp add: fl_0)
next
  case False
  let ?x = "of_int n * 2 powi u :: rat"
  from False have x0: "?x \<noteq> 0" by simp
  let ?v = "max (binade ?x) (- 1022) - 52"
  have "2 powi binade ?x \<le> \<bar>?x\<bar>"
    using x0 by (rule binade_bounds(1))
  also have "\<bar>?x\<bar> = of_int \<bar>n\<bar> * 2 powi u"
    by (simp add: abs_mult)
  also have "\<dots> < of_int (2 ^ 53) * 2 powi u"
    using n by (intro mult_strict_right_mono) (simp_all only: of_int_less_iff zero_less_power_int zero_less_numeral)
  also have "\<dots> = 2 powi (53 + u)"
    by (simp add: power_int_add)
  finally have "binade ?x < 53 + u" by (rule power_int_less_exp)
  with u have vu: "?v \<le> u" by simp
  define d where "d = nat (u - ?v)"
  from vu have ud: "u = ?v + int d" by (simp add: d_def)
  have "?x / 2 powi ?v = of_int n * (2 powi (?v + int d) / 2 powi ?v)"
    using ud by simp
  also have "2 powi (?v + int d) / 2 powi ?v = (2 powi int d :: rat)"
    by (simp add: power_int_add)
  finally have "?x / 2 powi ?v = of_int (n * 2 ^ d)"
    by simp
  then have "round_half_even (?x / 2 powi ?v) = n * 2 ^ d"
    by (simp only: round_half_even_of_int)
  then have "fl ?x = of_int (n * 2 ^ d) * 2 powi ?v"
    using x0 by (simp only: fl_def Let_def if_False)
  also have "\<dots> = of_int n * (2 powi int d * 2 powi ?v)"
    by simp
  also have "2 powi int d * 2 powi ?v = (2 powi (?v + int d) :: rat)"
    by (simp add: power_int_add)
  finally show ?thesis using ud by simp
qed

lemma fl_fix:
  assumes n: "\<bar>n\<bar> \<le> 2 ^ 53" and u: "- 1074 \<le> u"
  shows "fl (of_int n * 2 powi u) = of_int n * 2 powi u"
proof (cases "\<bar>n\<bar> < 2 ^ 53")
  case True
  then show ?thesis using u by (rule fl_fix_less)
next
  case False
  with n have "n = 2 ^ 53 \<or> n = - (2 ^ 53)" by linarith
  then obtain m :: int where m: "n = 2 * m" "\<bar>m\<bar> < 2 ^ 53"
    by (auto intro: that [of "2 ^ 52"] that [of "- (2 ^ 52)"])
  have "(of_int n * 2 powi u :: rat) = of_int m * 2 powi (u + 1)"
    by (simp add: m(1) power_int_add)
  moreover have "fl (of_int m * 2 powi (u + 1)) = of_int m * 2 powi (u + 1)"
    using m(2) u by (intro fl_fix_less) simp_all
  ultimately show ?thesis by simp
qed

lemma fl_form:
  assumes "q \<noteq> 0"
  shows "\<exists>n u. fl q = of_int n * 2 powi u \<and> \<bar>n\<bar> \<le> 2 ^ 53 \<and> - 1074 \<le> u"
proof -
  let ?u = "max (binade q) (- 1022) - 52"
  let ?n = "round_half_even (q / 2 powi ?u)"
  have f: "fl q = of_int ?n * 2 powi ?u"
    using assms by (simp add: fl_def Let_def)
  have u: "- 1074 \<le> ?u" by simp
  have "\<bar>q\<bar> < 2 powi (binade q + 1)"
    using assms by (rule binade_bounds(2))
  also have "\<dots> \<le> 2 powi (?u + 53)"
    by (rule power_int_increasing) simp_all
  also have "\<dots> = 2 powi ?u * 2 powi 53"
    by (rule power_int_add) simp
  finally have "\<bar>q\<bar> < 2 ^ 53 * 2 powi ?u"
    by (simp only: power_int_numeral mult.commute)
  then have "\<bar>q\<bar> / 2 powi ?u < 2 ^ 53"
    by (simp only: pos_divide_less_eq zero_less_power_int zero_less_numeral)
  moreover have "\<bar>q / 2 powi ?u\<bar> = \<bar>q\<bar> / 2 powi ?u"
    by (simp add: abs_divide power_int_abs)
  ultimately have a: "\<bar>q / 2 powi ?u\<bar> < 2 ^ 53"
    by (simp only:)
  then have "q / 2 powi ?u < 2 ^ 53" and "- (2 ^ 53) < q / 2 powi ?u"
    by (simp_all only: abs_less_iff minus_less_iff)
  then have "q / 2 powi ?u \<le> of_int (2 ^ 53)" and "of_int (- (2 ^ 53)) \<le> q / 2 powi ?u"
    by simp_all
  then have "?n \<le> 2 ^ 53" and "- (2 ^ 53) \<le> ?n"
    by (simp_all only: round_half_even_le round_half_even_ge)
  then have "\<bar>?n\<bar> \<le> 2 ^ 53" by simp
  with f u show ?thesis by blast
qed

lemma fl_idem: "fl (fl q) = fl q"
proof (cases "q = 0")
  case True
  then show ?thesis by (simp add: fl_0)
next
  case False
  then obtain n u where "fl q = of_int n * 2 powi u" "\<bar>n\<bar> \<le> 2 ^ 53" "- 1074 \<le> u"
    using fl_form by blast
  then show ?thesis by (simp add: fl_fix)
qed

lemma fl_minus: "fl q = q \<Longrightarrow> fl (- q) = - q"
proof (cases "q = 0")
  case True
  then show ?thesis by (simp add: fl_0)
next
  case False
  assume "fl q = q"
  with False obtain n u where "q = of_int n * 2 powi u" "\<bar>n\<bar> \<le> 2 ^ 53" "- 1074 \<le> u"
    using fl_form [of q] by auto
  then have "- q = of_int (- n) * 2 powi u" "\<bar>- n\<bar> \<le> 2 ^ 53" "- 1074 \<le> u"
    by simp_all
  then show ?thesis by (simp only: fl_fix)
qed

lemma fl_of_int: "\<bar>n\<bar> \<le> 2 ^ 53 \<Longrightarrow> fl (of_int n) = of_int n"
  using fl_fix [of n 0] by simp

subsection \<open>Numbers\<close>

text \<open>
  The type \<open>number\<close> holds the doubles, \<open>val a\<close> is the rational of \<open>a\<close>. Addition,
  subtraction and multiplication round their exact result; negation, the absolute value
  and the comparisons are exact. \<open>literal q\<close> is the number a decimal literal of the
  program text denotes, as \<open>1.27\<close>: the double nearest to \<open>q\<close>.
\<close>

typedef number = "{q :: rat. fl q = q}"
  morphisms val Double
  by (rule exI [of _ 0]) (simp add: fl_0)

setup_lifting type_definition_number

lift_definition literal :: "rat \<Rightarrow> number" is fl
  by (rule fl_idem)

instantiation number :: "{zero, one, plus, minus, uminus, times, abs, ord, equal}"
begin

lift_definition zero_number :: number is 0
  by (rule fl_0)

lift_definition one_number :: number is 1
  using fl_of_int [of 1] by simp

lift_definition plus_number :: "number \<Rightarrow> number \<Rightarrow> number" is "\<lambda>a b. fl (a + b)"
  by (rule fl_idem)

lift_definition minus_number :: "number \<Rightarrow> number \<Rightarrow> number" is "\<lambda>a b. fl (a - b)"
  by (rule fl_idem)

lift_definition uminus_number :: "number \<Rightarrow> number" is "\<lambda>a. - a"
  by (rule fl_minus)

lift_definition times_number :: "number \<Rightarrow> number \<Rightarrow> number" is "\<lambda>a b. fl (a * b)"
  by (rule fl_idem)

lift_definition abs_number :: "number \<Rightarrow> number" is "\<lambda>a. \<bar>a\<bar>"
  by (simp add: abs_if fl_minus)

lift_definition less_eq_number :: "number \<Rightarrow> number \<Rightarrow> bool" is "\<lambda>a b. a \<le> b" .

lift_definition less_number :: "number \<Rightarrow> number \<Rightarrow> bool" is "\<lambda>a b. a < b" .

lift_definition equal_number :: "number \<Rightarrow> number \<Rightarrow> bool" is "\<lambda>a b. a = b" .

instance
  by standard (transfer, simp)

end

text \<open>An addition or a subtraction is exact when its result needs no rounding.\<close>

definition exact_add :: "number \<Rightarrow> number \<Rightarrow> bool" where
  "exact_add a b \<longleftrightarrow> fl (val a + val b) = val a + val b"


subsection \<open>Vectors, matrices, angles and boxes\<close>

text \<open>
  Modelled from the spec: \<open>Vec2\<close> is missing from the sources. The spec has it as a 2D
  point with component-wise \<open>add\<close> and \<open>sub\<close>.
\<close>

record Vec2 =
  x :: number
  y :: number

definition add :: "Vec2 \<Rightarrow> Vec2 \<Rightarrow> Vec2" where
  "add a b = \<lparr>x = x a + x b, y = y a + y b\<rparr>"

definition sub :: "Vec2 \<Rightarrow> Vec2 \<Rightarrow> Vec2" where
  "sub a b = \<lparr>x = x a - x b, y = y a - y b\<rparr>"

text \<open>
  Modelled from the spec: \<open>Matrix3\<close> is missing from the sources. The spec has it as the
  nine coefficients of a row-major 3x3 matrix \<open>[a, b, _, d, e, _, _, _, _]\<close>, a 2x2 linear
  map with a translation; \<open>sch_field.ts\<close> reads it as \<open>elements[0]\<close>, \<open>elements[1]\<close>,
  \<open>elements[3]\<close>, \<open>elements[4]\<close>. Field \<open>ek\<close> is \<open>elements[k]\<close>.
\<close>

record Matrix3 =
  e0 :: number
  e1 :: number
  e2 :: number
  e3 :: number
  e4 :: number
  e5 :: number
  e6 :: number
  e7 :: number
  e8 :: number

definition identity :: Matrix3 where
  "identity = \<lparr>e0 = 1, e1 = 0, e2 = 0, e3 = 0, e4 = 1, e5 = 0, e6 = 0, e7 = 0, e8 = 1\<rparr>"

text \<open>The type \<open>Parent\<close> of \<open>sch_field.ts\<close>, lines 14 to 17.\<close>

record Parent =
  position :: Vec2
  transform :: Matrix3

text \<open>
  Modelled from the spec: \<open>Matrix3.transform\<close> is missing from the sources. It applies the
  matrix to a point: the linear map of the first two rows, then the translation.
\<close>

definition transform :: "Matrix3 \<Rightarrow> Vec2 \<Rightarrow> Vec2" where
  "transform m v =
     \<lparr>x = e0 m * x v + e1 m * y v + e2 m,
      y = e3 m * x v + e4 m * y v + e5 m\<rparr>"

text \<open>
  Modelled from the spec: \<open>Angle\<close> is missing from the sources. The spec has it as a scalar
  rotation in degrees, read with \<open>degrees\<close> and built with \<open>from_degrees\<close>. Its
  \<open>rotate_point\<close> is a parameter of the model (\<open>Ext\<close> below).
\<close>

datatype Angle = Angle (degrees: number)

definition from_degrees :: "number \<Rightarrow> Angle" where
  "from_degrees d = Angle d"

text \<open>
  Modelled from the spec: \<open>BBox\<close> is missing from the sources. The spec has the text box
  as its two corners \<open>{start, end}\<close>, and \<open>bounding_box\<close> returns a box built from the
  corners it assigns.
\<close>

record BBox =
  start :: Vec2
  "end" :: Vec2

text \<open>
  The alignments \<open>HAlign\<close> and \<open>VAlign\<close> of \<open>./font\<close>: \<open>"left"\<close>, \<open>"center"\<close>, \<open>"right"\<close> and
  \<open>"top"\<close>, \<open>"center"\<close>, \<open>"bottom"\<close>.
\<close>

datatype HAlign = h_left | h_center | h_right

datatype VAlign = v_top | v_center | v_bottom

subsection \<open>The field and its collaborators\<close>

text \<open>
  The attributes of a field that \<open>sch_field.ts\<close> reads: \<open>parent\<close> is its own (line 26),
  the others are inherited from \<open>EDAText\<close>.
\<close>

record SchField =
  "text" :: string
  text_pos :: Vec2
  text_angle :: Angle
  h_align :: HAlign
  v_align :: VAlign
  parent :: "Parent option"

text \<open>
  What \<open>sch_field.ts\<close> calls and the sources do not hold: the text box of the base class
  (\<open>this.get_text_box()\<close>), the rotation of a point about a pivot
  (\<open>angle.rotate_point(point, pivot)\<close>) and the centre of a box (\<open>bbox.center\<close>). Every
  theorem holds for all of them.
\<close>

record Ext =
  get_text_box :: "SchField \<Rightarrow> BBox"
  rotate_point :: "Angle \<Rightarrow> Vec2 \<Rightarrow> Vec2 \<Rightarrow> Vec2"
  center :: "BBox \<Rightarrow> Vec2"

text \<open>
  The console is the only state the accessors touch. \<open>Initial_bb b\<close> is the line of
  \<open>console.log("initial bb", bbox)\<close> (line 82), \<open>Draw_rot r c\<close> the line of
  \<open>console.log("draw rot", rot, "center", center)\<close> (line 152). An accessor that logs
  returns its value with the lines it wrote.
\<close>

datatype log_entry = Initial_bb BBox | Draw_rot number Vec2

type_synonym console = "log_entry list"

subsection \<open>The accessors of SchField\<close>

text \<open>\<open>shown_text\<close>, lines 30 to 35.\<close>

definition shown_text :: "SchField \<Rightarrow> string" where
  "shown_text f = (if text f = ''~'' then '''' else text f)"

text \<open>
  \<open>draw_rotation\<close>, lines 37 to 68. The parent's transform is
  \<open>this.parent?.transform ?? Matrix3.identity()\<close>.
\<close>

definition draw_rotation :: "SchField \<Rightarrow> Angle" where
  "draw_rotation f =
     (let this_deg = degrees (text_angle f);
          parent_transform =
            (case parent f of Some p \<Rightarrow> Parent.transform p | None \<Rightarrow> identity);
          this_deg =
            (if \<bar>e1 parent_transform\<bar> = 1
             then (if this_deg = 0 \<or> this_deg = literal 180 then literal 90 else 0)
             else this_deg)
      in from_degrees this_deg)"

text \<open>\<open>position\<close>, lines 70 to 77.\<close>

definition position :: "SchField \<Rightarrow> Vec2" where
  "position f =
     (case parent f of
        Some p \<Rightarrow>
          (let relative_pos = sub (text_pos f) (Parent.position p);
               relative_pos = transform (Parent.transform p) relative_pos
           in add relative_pos (Parent.position p))
      | None \<Rightarrow> text_pos f)"

text \<open>\<open>mirror\<close>, lines 185 to 187.\<close>

definition mirror :: "number \<Rightarrow> number \<Rightarrow> number" where
  "mirror v ref = - (v - ref) + ref"

text \<open>
  \<open>bounding_box\<close>, lines 79 to 111. The assignments to \<open>begin.y\<close>, \<open>end.y\<close>, \<open>bbox.start\<close>
  and \<open>bbox.end\<close> are record updates, in the order of the source; \<open>end'\<close> is its local
  \<open>end\<close>.
\<close>

definition bounding_box :: "Ext \<Rightarrow> SchField \<Rightarrow> BBox \<times> console" where
  "bounding_box E f =
     (let bbox = get_text_box E f;
          out = [Initial_bb bbox];
          origin = (case parent f of Some p \<Rightarrow> Parent.position p | None \<Rightarrow> \<lparr>x = 0, y = 0\<rparr>);
          pos = sub (text_pos f) origin;
          begin = sub (start bbox) origin;
          end' = sub (end bbox) origin;
          begin = rotate_point E (text_angle f) begin pos;
          end' = rotate_point E (text_angle f) end' pos;
          begin = (case parent f of
                     Some p \<Rightarrow> begin\<lparr>y := mirror (y begin) (y pos)\<rparr>
                   | None \<Rightarrow> begin);
          end' = (case parent f of
                    Some p \<Rightarrow> end'\<lparr>y := mirror (y end') (y pos)\<rparr>
                  | None \<Rightarrow> end');
          transform' = (case parent f of Some p \<Rightarrow> Parent.transform p | None \<Rightarrow> identity);
          bbox = bbox\<lparr>start := transform transform' begin\<rparr>;
          bbox = bbox\<lparr>end := transform transform' end'\<rparr>;
          bbox = bbox\<lparr>start := add (start bbox) origin\<rparr>
      in (bbox, out))"

text \<open>\<open>is_horiz_justify_flipped\<close>, lines 113 to 135.\<close>

definition is_horiz_justify_flipped :: "Ext \<Rightarrow> SchField \<Rightarrow> bool \<times> console" where
  "is_horiz_justify_flipped E f =
     (let (bbox, out) = bounding_box E f;
          center = center E bbox;
          pos = position f;
          rot = degrees (draw_rotation f);
          is_vertical = (rot = literal 90 \<or> rot = literal 270)
      in (case h_align f of
            h_left \<Rightarrow> (if is_vertical then y center > y pos else x center < x pos)
          | h_right \<Rightarrow> (if is_vertical then y center < y pos else x center > x pos)
          | h_center \<Rightarrow> False,
          out))"

text \<open>\<open>effective_horiz_justify\<close>, lines 137 to 146.\<close>

definition effective_horiz_justify :: "Ext \<Rightarrow> SchField \<Rightarrow> HAlign \<times> console" where
  "effective_horiz_justify E f =
     (case h_align f of
        h_left \<Rightarrow>
          (let (flipped, out) = is_horiz_justify_flipped E f
           in (if flipped then h_right else h_left, out))
      | h_right \<Rightarrow>
          (let (flipped, out) = is_horiz_justify_flipped E f
           in (if flipped then h_left else h_right, out))
      | h_center \<Rightarrow> (h_center, []))"

text \<open>\<open>is_vert_justify_flipped\<close>, lines 148 to 171.\<close>

definition is_vert_justify_flipped :: "Ext \<Rightarrow> SchField \<Rightarrow> bool \<times> console" where
  "is_vert_justify_flipped E f =
     (let (bbox, out) = bounding_box E f;
          center = center E bbox;
          pos = position f;
          rot = degrees (draw_rotation f);
          out = out @ [Draw_rot rot center];
          is_vertical = (rot = literal 90 \<or> rot = literal 270)
      in (case v_align f of
            v_top \<Rightarrow> (if is_vertical then x center < y pos else y center < y pos)
          | v_bottom \<Rightarrow> (if is_vertical then x center > x pos else y center > y pos)
          | v_center \<Rightarrow> False,
          out))"

text \<open>\<open>effective_vert_justify\<close>, lines 173 to 182.\<close>

definition effective_vert_justify :: "Ext \<Rightarrow> SchField \<Rightarrow> VAlign \<times> console" where
  "effective_vert_justify E f =
     (case v_align f of
        v_top \<Rightarrow>
          (let (flipped, out) = is_vert_justify_flipped E f
           in (if flipped then v_bottom else v_top, out))
      | v_bottom \<Rightarrow>
          (let (flipped, out) = is_vert_justify_flipped E f
           in (if flipped then v_top else v_bottom, out))
      | v_center \<Rightarrow> (v_center, []))"

subsection \<open>Intermediate values of the accessors\<close>

text \<open>
  The values the source computes on the way, named so that the properties can speak of
  them: \<open>origin\<close> (line 85), \<open>pos\<close> (line 86), the parent's transform or the identity
  (lines 39 and 104), the two corners after the rotation (lines 87 to 91) and after the
  mirroring of lines 95 to 100.
\<close>

definition origin :: "SchField \<Rightarrow> Vec2" where
  "origin f = (case parent f of Some p \<Rightarrow> Parent.position p | None \<Rightarrow> \<lparr>x = 0, y = 0\<rparr>)"

definition pos :: "SchField \<Rightarrow> Vec2" where
  "pos f = sub (text_pos f) (origin f)"

definition parent_transform :: "SchField \<Rightarrow> Matrix3" where
  "parent_transform f = (case parent f of Some p \<Rightarrow> Parent.transform p | None \<Rightarrow> identity)"

definition rotated_begin :: "Ext \<Rightarrow> SchField \<Rightarrow> Vec2" where
  "rotated_begin E f =
     rotate_point E (text_angle f) (sub (start (get_text_box E f)) (origin f)) (pos f)"

definition rotated_end :: "Ext \<Rightarrow> SchField \<Rightarrow> Vec2" where
  "rotated_end E f =
     rotate_point E (text_angle f) (sub (end (get_text_box E f)) (origin f)) (pos f)"

definition mirrored_begin :: "Ext \<Rightarrow> SchField \<Rightarrow> Vec2" where
  "mirrored_begin E f =
     (case parent f of
        Some p \<Rightarrow> (rotated_begin E f)\<lparr>y := mirror (y (rotated_begin E f)) (y (pos f))\<rparr>
      | None \<Rightarrow> rotated_begin E f)"

definition mirrored_end :: "Ext \<Rightarrow> SchField \<Rightarrow> Vec2" where
  "mirrored_end E f =
     (case parent f of
        Some p \<Rightarrow> (rotated_end E f)\<lparr>y := mirror (y (rotated_end E f)) (y (pos f))\<rparr>
      | None \<Rightarrow> rotated_end E f)"

text \<open>\<open>is_vertical\<close> of lines 117 and 153, and \<open>this.bounding_box.center\<close> of lines 114 and 149.\<close>

definition is_vertical :: "SchField \<Rightarrow> bool" where
  "is_vertical f \<longleftrightarrow>
     degrees (draw_rotation f) = literal 90 \<or> degrees (draw_rotation f) = literal 270"

definition box_center :: "Ext \<Rightarrow> SchField \<Rightarrow> Vec2" where
  "box_center E f = center E (fst (bounding_box E f))"

subsection \<open>Concrete inputs\<close>

text \<open>
  \<open>vec a b\<close> is the point \<open>new Vec2(a, b)\<close> of two decimal literals. \<open>field_at p q\<close> is a
  field with text \<open>"REF1"\<close>, anchor \<open>p\<close>, angle 0, alignment left and top, and parent \<open>q\<close>.
  \<open>rot90\<close> is the transform KiCad gives a symbol rotated by 90 degrees (the comment of
  lines 46 to 53: \<open>[0, -1, -1, 0]\<close>). \<open>unrotated b\<close> are collaborators for a field of
  angle 0: its text box is \<open>b\<close>, a rotation by 0 degrees leaves a point where it is, and
  the centre of a box is the midpoint of its corners.
\<close>

definition vec :: "rat \<Rightarrow> rat \<Rightarrow> Vec2" where
  "vec a b = \<lparr>x = literal a, y = literal b\<rparr>"

definition field_at :: "Vec2 \<Rightarrow> Parent option \<Rightarrow> SchField" where
  "field_at p q =
     \<lparr>text = ''REF1'', text_pos = p, text_angle = Angle 0, h_align = h_left,
      v_align = v_top, parent = q\<rparr>"

definition rot90 :: Matrix3 where
  "rot90 = \<lparr>e0 = 0, e1 = - 1, e2 = 0, e3 = - 1, e4 = 0, e5 = 0, e6 = 0, e7 = 0, e8 = 1\<rparr>"

definition midpoint :: "BBox \<Rightarrow> Vec2" where
  "midpoint b =
     \<lparr>x = (x (start b) + x (end b)) * literal (1 / 2),
      y = (y (start b) + y (end b)) * literal (1 / 2)\<rparr>"

definition unrotated :: "BBox \<Rightarrow> Ext" where
  "unrotated b =
     \<lparr>get_text_box = (\<lambda>f. b), rotate_point = (\<lambda>a p c. p), center = midpoint\<rparr>"

section \<open>Auxiliary facts\<close>

text \<open>Zero and one in double arithmetic: what the zero origin and the identity matrix do.\<close>

lemma number_minus_0: "a - 0 = (a :: number)"
  by transfer simp

lemma number_plus_0: "a + 0 = (a :: number)"
  by transfer simp

lemma number_identity_rows:
  "1 * a + 0 * b + 0 = (a :: number)" "0 * a + 1 * b + 0 = (b :: number)"
  by (transfer, simp add: fl_0)+

lemma number_abs_0: "\<bar>0 :: number\<bar> \<noteq> 1"
  by transfer simp

lemma sub_origin_0: "sub v \<lparr>x = 0, y = 0\<rparr> = v"
  by (simp add: sub_def number_minus_0)

lemma add_origin_0: "add v \<lparr>x = 0, y = 0\<rparr> = v"
  by (simp add: add_def number_plus_0)

lemma transform_identity: "transform identity v = v"
  by (simp add: transform_def identity_def number_identity_rows)

lemma exact_add_changes:
  assumes "val b \<noteq> 0" and "exact_add a b"
  shows "a + b \<noteq> a"
proof
  assume "a + b = a"
  then have "val (a + b) = val a" by simp
  with assms(2) have "val a + val b = val a"
    by (simp add: plus_number.rep_eq exact_add_def)
  with assms(1) show False by simp
qed


lemma bounding_box_no_parent:
  "parent f = None \<Longrightarrow>
   bounding_box E f =
     ((get_text_box E f)
        \<lparr>start := add (transform identity (rotated_begin E f)) \<lparr>x = 0, y = 0\<rparr>,
         end := transform identity (rotated_end E f)\<rparr>,
      [Initial_bb (get_text_box E f)])"
  by (simp add: bounding_box_def Let_def rotated_begin_def rotated_end_def pos_def origin_def)

lemma bounding_box_corners:
  "bounding_box E f =
     ((get_text_box E f)
        \<lparr>start := add (transform (parent_transform f) (mirrored_begin E f)) (origin f),
         end := transform (parent_transform f) (mirrored_end E f)\<rparr>,
      [Initial_bb (get_text_box E f)])"
  by (simp add: bounding_box_def Let_def rotated_begin_def rotated_end_def pos_def origin_def
      mirrored_begin_def mirrored_end_def parent_transform_def split: option.splits)

section \<open>Properties\<close>

text \<open>
  C8 (as amended). \<open>shown_text\<close> returns the empty string when \<open>text\<close> is exactly the
  one-character string \<open>"~"\<close> and returns \<open>text\<close> unchanged for every other string; so its
  result is empty exactly when \<open>text\<close> is \<open>"~"\<close> or is empty already. It is a total function
  of \<open>text\<close>: no error, nothing written.
\<close>

theorem shown_text_placeholder:
  "shown_text f = (if text f = ''~'' then '''' else text f) \<and>
   (shown_text f = '''' \<longleftrightarrow> text f = ''~'' \<or> text f = '''')"
  by (simp add: shown_text_def)

text \<open>
  C8 as stated fails for the empty text: \<open>shown_text\<close> returns the empty string there,
  and the text is not \<open>"~"\<close>.
\<close>

theorem shown_text_empty_counterexample:
  "shown_text \<lparr>text = '''', text_pos = \<lparr>x = 0, y = 0\<rparr>, text_angle = Angle 0,
     h_align = h_left, v_align = v_top, parent = None\<rparr> = ''''
   \<and> '''' \<noteq> ''~''"
  by (simp add: shown_text_def)

text \<open>
  C1. \<open>draw_rotation\<close> starts from the degrees of \<open>text_angle\<close> and takes the parent's
  transform, or the identity without a parent. When the magnitude of the coefficient at
  index 1 is 1 the result is 90 degrees for a text angle of 0 or 180 and 0 degrees
  otherwise; when it is not 1, as without a parent, the degrees pass through unchanged.
  The result is wrapped as an \<open>Angle\<close>. In particular a parent whose coefficient has
  magnitude 1 and a text angle of 0 give 90 degrees.
\<close>

theorem draw_rotation_rule:
  "draw_rotation f =
     from_degrees
       (if \<bar>e1 (parent_transform f)\<bar> = 1
        then (if degrees (text_angle f) = 0 \<or> degrees (text_angle f) = literal 180
              then literal 90 else 0)
        else degrees (text_angle f))
   \<and> (parent f = None \<longrightarrow> draw_rotation f = from_degrees (degrees (text_angle f)))
   \<and> (\<forall>p. parent f = Some p \<and> \<bar>e1 (Parent.transform p)\<bar> = 1 \<and> degrees (text_angle f) = 0
          \<longrightarrow> degrees (draw_rotation f) = literal 90)"
  by (auto simp add: draw_rotation_def parent_transform_def Let_def from_degrees_def
      identity_def number_abs_0 split: option.splits)

text \<open>
  The scenario of the spec: the field \<open>REF1\<close> at (10, 5) with angle 0 under a parent at
  (0, 0) rotated by 90 degrees is drawn at 90 degrees; without a parent its angle is kept.
\<close>

theorem draw_rotation_rule_witness:
  "parent (field_at (vec 10 5) (Some \<lparr>Parent.position = vec 0 0, Parent.transform = rot90\<rparr>))
     = Some \<lparr>Parent.position = vec 0 0, Parent.transform = rot90\<rparr>
   \<and> \<bar>e1 rot90\<bar> = 1
   \<and> degrees (text_angle
         (field_at (vec 10 5) (Some \<lparr>Parent.position = vec 0 0, Parent.transform = rot90\<rparr>))) = 0
   \<and> degrees (draw_rotation
         (field_at (vec 10 5) (Some \<lparr>Parent.position = vec 0 0, Parent.transform = rot90\<rparr>)))
       = literal 90
   \<and> parent (field_at (vec 10 5) None) = None
   \<and> draw_rotation (field_at (vec 10 5) None) = from_degrees 0"
proof -
  let ?p = "\<lparr>Parent.position = vec 0 0, Parent.transform = rot90\<rparr>"
  let ?f = "field_at (vec 10 5) (Some ?p)"
  have a: "parent ?f = Some ?p"
    by (simp add: field_at_def)
  have "\<bar>e1 rot90\<bar> = 1"
    by code_simp
  then have b: "\<bar>e1 (Parent.transform ?p)\<bar> = 1"
    by simp
  have c: "degrees (text_angle ?f) = 0"
    by (simp add: field_at_def)
  from draw_rotation_rule [of ?f] a b c have d: "degrees (draw_rotation ?f) = literal 90"
    by blast
  have e: "parent (field_at (vec 10 5) None) = None"
    by (simp add: field_at_def)
  with draw_rotation_rule [of "field_at (vec 10 5) None"]
  have "draw_rotation (field_at (vec 10 5) None)
      = from_degrees (degrees (text_angle (field_at (vec 10 5) None)))"
    by blast
  then have g: "draw_rotation (field_at (vec 10 5) None) = from_degrees 0"
    by (simp add: field_at_def)
  from a b c d e g show ?thesis by simp
qed

text \<open>
  C3. Without a parent \<open>position\<close> returns \<open>text_pos\<close> unchanged. With a parent it returns
  the parent's transform applied to \<open>text_pos - parent.position\<close>, with \<open>parent.position\<close>
  added back to the mapped point.
\<close>

theorem position_rule:
  "(parent f = None \<longrightarrow> position f = text_pos f) \<and>
   (\<forall>p. parent f = Some p \<longrightarrow>
      position f =
        add (transform (Parent.transform p) (sub (text_pos f) (Parent.position p)))
          (Parent.position p))"
  by (simp add: position_def Let_def)

theorem position_rule_witness:
  "parent (field_at (vec 10 5) None) = None
   \<and> position (field_at (vec 10 5) None) = vec 10 5
   \<and> parent (field_at (vec 10 5) (Some \<lparr>Parent.position = vec 3 4, Parent.transform = rot90\<rparr>))
       = Some \<lparr>Parent.position = vec 3 4, Parent.transform = rot90\<rparr>
   \<and> position (field_at (vec 10 5) (Some \<lparr>Parent.position = vec 3 4, Parent.transform = rot90\<rparr>))
       = add (transform rot90 (sub (vec 10 5) (vec 3 4))) (vec 3 4)"
proof -
  let ?p = "\<lparr>Parent.position = vec 3 4, Parent.transform = rot90\<rparr>"
  have a: "parent (field_at (vec 10 5) None) = None"
    by (simp add: field_at_def)
  with position_rule [of "field_at (vec 10 5) None"]
  have "position (field_at (vec 10 5) None) = text_pos (field_at (vec 10 5) None)"
    by blast
  then have b: "position (field_at (vec 10 5) None) = vec 10 5"
    by (simp add: field_at_def)
  have c: "parent (field_at (vec 10 5) (Some ?p)) = Some ?p"
    by (simp add: field_at_def)
  with position_rule [of "field_at (vec 10 5) (Some ?p)"]
  have "position (field_at (vec 10 5) (Some ?p)) =
      add (transform (Parent.transform ?p)
            (sub (text_pos (field_at (vec 10 5) (Some ?p))) (Parent.position ?p)))
        (Parent.position ?p)"
    by blast
  then have d: "position (field_at (vec 10 5) (Some ?p)) =
      add (transform rot90 (sub (vec 10 5) (vec 3 4))) (vec 3 4)"
    by (simp add: field_at_def)
  from a b c d show ?thesis by simp
qed

text \<open>
  C4. With \<open>v_align\<close> top, \<open>is_vert_justify_flipped\<close> returns \<open>center.x < pos.y\<close> when the
  draw rotation is 90 or 270 degrees (the centre's x against the position's y, as the
  source has it) and \<open>center.y < pos.y\<close> otherwise; with bottom it returns
  \<open>center.x > pos.x\<close> when vertical and \<open>center.y > pos.y\<close> otherwise; with center it
  returns false. \<open>effective_vert_justify\<close> swaps top and bottom exactly when flipped and
  leaves center unchanged. Here \<open>center\<close> is the centre of \<open>bounding_box\<close> and \<open>pos\<close> is
  \<open>position\<close>.
\<close>

theorem vert_justify_rule:
  "fst (is_vert_justify_flipped E f) =
     (case v_align f of
        v_top \<Rightarrow>
          if is_vertical f then x (box_center E f) < y (position f)
          else y (box_center E f) < y (position f)
      | v_bottom \<Rightarrow>
          if is_vertical f then x (box_center E f) > x (position f)
          else y (box_center E f) > y (position f)
      | v_center \<Rightarrow> False)
   \<and> fst (effective_vert_justify E f) =
     (case v_align f of
        v_top \<Rightarrow> if fst (is_vert_justify_flipped E f) then v_bottom else v_top
      | v_bottom \<Rightarrow> if fst (is_vert_justify_flipped E f) then v_top else v_bottom
      | v_center \<Rightarrow> v_center)"
  by (simp add: is_vert_justify_flipped_def effective_vert_justify_def is_vertical_def
      box_center_def Let_def split_beta split: VAlign.splits)

text \<open>
  A top-aligned field at (10, 5) with the text box (10, 4) to (14, 5). Without a parent the
  centre (12, 4.5) lies above the anchor, so the field is flipped to bottom. Under a parent
  rotated by 90 degrees at (0, 0) the field is vertical, and the centre's x of -5.5 is
  compared with the position's y of -10: not flipped.
\<close>

theorem vert_justify_rule_witness:
  "v_align (field_at (vec 10 5) None) = v_top
   \<and> \<not> is_vertical (field_at (vec 10 5) None)
   \<and> fst (is_vert_justify_flipped (unrotated \<lparr>start = vec 10 4, end = vec 14 5\<rparr>)
            (field_at (vec 10 5) None))
   \<and> fst (effective_vert_justify (unrotated \<lparr>start = vec 10 4, end = vec 14 5\<rparr>)
            (field_at (vec 10 5) None)) = v_bottom
   \<and> is_vertical
        (field_at (vec 10 5) (Some \<lparr>Parent.position = vec 0 0, Parent.transform = rot90\<rparr>))
   \<and> \<not> fst (is_vert_justify_flipped (unrotated \<lparr>start = vec 10 4, end = vec 14 5\<rparr>)
        (field_at (vec 10 5) (Some \<lparr>Parent.position = vec 0 0, Parent.transform = rot90\<rparr>)))
   \<and> fst (effective_vert_justify (unrotated \<lparr>start = vec 10 4, end = vec 14 5\<rparr>)
        (field_at (vec 10 5) (Some \<lparr>Parent.position = vec 0 0, Parent.transform = rot90\<rparr>)))
       = v_top"
proof -
  let ?E = "unrotated \<lparr>start = vec 10 4, end = vec 14 5\<rparr>"
  let ?f = "field_at (vec 10 5) None"
  let ?g = "field_at (vec 10 5) (Some \<lparr>Parent.position = vec 0 0, Parent.transform = rot90\<rparr>)"
  have a: "v_align ?f = v_top" "v_align ?g = v_top"
    by (simp_all add: field_at_def)
  have b: "\<not> is_vertical ?f" "is_vertical ?g"
    by code_simp+
  have c: "y (box_center ?E ?f) < y (position ?f)"
    by code_simp
  have d: "\<not> x (box_center ?E ?g) < y (position ?g)"
    by code_simp
  from vert_justify_rule [of ?E ?f] a b c
  have e: "fst (is_vert_justify_flipped ?E ?f)" "fst (effective_vert_justify ?E ?f) = v_bottom"
    by simp_all
  from vert_justify_rule [of ?E ?g] a b d
  have g: "\<not> fst (is_vert_justify_flipped ?E ?g)" "fst (effective_vert_justify ?E ?g) = v_top"
    by simp_all
  from a b e g show ?thesis by simp
qed

text \<open>
  C5. With \<open>h_align\<close> left, \<open>is_horiz_justify_flipped\<close> returns \<open>center.y > pos.y\<close> when the
  draw rotation is 90 or 270 degrees and \<open>center.x < pos.x\<close> otherwise; with right the
  comparisons are reversed; with center it returns false. \<open>effective_horiz_justify\<close> maps
  left to right and right to left exactly when flipped and leaves center unchanged.
\<close>

theorem horiz_justify_rule:
  "fst (is_horiz_justify_flipped E f) =
     (case h_align f of
        h_left \<Rightarrow>
          if is_vertical f then y (box_center E f) > y (position f)
          else x (box_center E f) < x (position f)
      | h_right \<Rightarrow>
          if is_vertical f then y (box_center E f) < y (position f)
          else x (box_center E f) > x (position f)
      | h_center \<Rightarrow> False)
   \<and> fst (effective_horiz_justify E f) =
     (case h_align f of
        h_left \<Rightarrow> if fst (is_horiz_justify_flipped E f) then h_right else h_left
      | h_right \<Rightarrow> if fst (is_horiz_justify_flipped E f) then h_left else h_right
      | h_center \<Rightarrow> h_center)"
  by (simp add: is_horiz_justify_flipped_def effective_horiz_justify_def is_vertical_def
      box_center_def Let_def split_beta split: HAlign.splits)

text \<open>
  A left-aligned field at (10, 5) with the text box (10, 4) to (14, 5). Without a parent the
  centre (12, 4.5) lies right of the anchor: not flipped. Under a parent rotated by 90
  degrees at (0, 0) the field is vertical, and the centre's y of -12 is not above the
  position's y of -10: not flipped. With \<open>h_align\<close> center nothing is flipped.
\<close>

theorem horiz_justify_rule_witness:
  "h_align (field_at (vec 10 5) None) = h_left
   \<and> \<not> is_vertical (field_at (vec 10 5) None)
   \<and> \<not> fst (is_horiz_justify_flipped (unrotated \<lparr>start = vec 10 4, end = vec 14 5\<rparr>)
            (field_at (vec 10 5) None))
   \<and> fst (effective_horiz_justify (unrotated \<lparr>start = vec 10 4, end = vec 14 5\<rparr>)
            (field_at (vec 10 5) None)) = h_left
   \<and> is_vertical
        (field_at (vec 10 5) (Some \<lparr>Parent.position = vec 0 0, Parent.transform = rot90\<rparr>))
   \<and> \<not> fst (is_horiz_justify_flipped (unrotated \<lparr>start = vec 10 4, end = vec 14 5\<rparr>)
        (field_at (vec 10 5) (Some \<lparr>Parent.position = vec 0 0, Parent.transform = rot90\<rparr>)))
   \<and> fst (effective_horiz_justify (unrotated \<lparr>start = vec 10 4, end = vec 14 5\<rparr>)
        ((field_at (vec 10 5) None)\<lparr>h_align := h_center\<rparr>)) = h_center"
proof -
  let ?E = "unrotated \<lparr>start = vec 10 4, end = vec 14 5\<rparr>"
  let ?f = "field_at (vec 10 5) None"
  let ?g = "field_at (vec 10 5) (Some \<lparr>Parent.position = vec 0 0, Parent.transform = rot90\<rparr>)"
  have a: "h_align ?f = h_left" "h_align ?g = h_left"
    by (simp_all add: field_at_def)
  have b: "\<not> is_vertical ?f" "is_vertical ?g"
    by code_simp+
  have c: "\<not> x (box_center ?E ?f) < x (position ?f)"
    by code_simp
  have d: "\<not> y (box_center ?E ?g) > y (position ?g)"
    by code_simp
  from horiz_justify_rule [of ?E ?f] a b c
  have e: "\<not> fst (is_horiz_justify_flipped ?E ?f)" "fst (effective_horiz_justify ?E ?f) = h_left"
    by simp_all
  from horiz_justify_rule [of ?E ?g] a b d
  have g: "\<not> fst (is_horiz_justify_flipped ?E ?g)"
    by simp
  from horiz_justify_rule [of ?E "?f\<lparr>h_align := h_center\<rparr>"]
  have h: "fst (effective_horiz_justify ?E (?f\<lparr>h_align := h_center\<rparr>)) = h_center"
    by simp
  from a b e g h show ?thesis by simp
qed

text \<open>
  C6. For a field without a parent \<open>position\<close> equals \<open>text_pos\<close>, \<open>draw_rotation\<close> equals
  \<open>text_angle\<close>, and \<open>bounding_box\<close> is the base text box with both corners rotated about
  \<open>text_pos\<close> by \<open>text_angle\<close>: nothing is mirrored, and the identity transform and the
  zero origin change no double.
\<close>

theorem unparented_rule:
  assumes "parent f = None"
  shows "position f = text_pos f
    \<and> draw_rotation f = text_angle f
    \<and> fst (bounding_box E f) =
        (get_text_box E f)
          \<lparr>start := rotate_point E (text_angle f) (start (get_text_box E f)) (text_pos f),
           end := rotate_point E (text_angle f) (end (get_text_box E f)) (text_pos f)\<rparr>"
proof -
  have p: "position f = text_pos f"
    using assms by (simp add: position_def)
  have r: "draw_rotation f = text_angle f"
    using assms by (simp add: draw_rotation_def Let_def from_degrees_def identity_def number_abs_0)
  have o: "origin f = \<lparr>x = 0, y = 0\<rparr>"
    using assms by (simp add: origin_def)
  have ps: "pos f = text_pos f"
    by (simp add: pos_def o sub_origin_0)
  have rb: "rotated_begin E f =
      rotate_point E (text_angle f) (start (get_text_box E f)) (text_pos f)"
    by (simp add: rotated_begin_def o ps sub_origin_0)
  have re: "rotated_end E f =
      rotate_point E (text_angle f) (end (get_text_box E f)) (text_pos f)"
    by (simp add: rotated_end_def o ps sub_origin_0)
  have b: "fst (bounding_box E f) =
      (get_text_box E f)
        \<lparr>start := rotate_point E (text_angle f) (start (get_text_box E f)) (text_pos f),
         end := rotate_point E (text_angle f) (end (get_text_box E f)) (text_pos f)\<rparr>"
    using assms by (simp add: bounding_box_no_parent rb re transform_identity add_origin_0)
  from p r b show ?thesis by simp
qed

text \<open>
  The scenario of the spec: \<open>REF1\<close> at (10, 5) with angle 0 and no parent, with the text
  box (10, 4) to (14, 5).
\<close>

theorem unparented_rule_witness:
  "parent (field_at (vec 10 5) None) = None
   \<and> position (field_at (vec 10 5) None) = vec 10 5
   \<and> draw_rotation (field_at (vec 10 5) None) = Angle 0
   \<and> fst (bounding_box (unrotated \<lparr>start = vec 10 4, end = vec 14 5\<rparr>)
            (field_at (vec 10 5) None))
       = \<lparr>start = vec 10 4, end = vec 14 5\<rparr>"
proof -
  let ?E = "unrotated \<lparr>start = vec 10 4, end = vec 14 5\<rparr>"
  let ?f = "field_at (vec 10 5) None"
  have a: "parent ?f = None"
    by (simp add: field_at_def)
  from unparented_rule [OF a, of ?E]
  have "position ?f = vec 10 5 \<and> draw_rotation ?f = Angle 0
    \<and> fst (bounding_box ?E ?f) = \<lparr>start = vec 10 4, end = vec 14 5\<rparr>"
    by (simp add: field_at_def unrotated_def)
  with a show ?thesis by simp
qed

text \<open>
  C2 (as amended). In \<open>bounding_box\<close>, after both corners are transformed by the parent's
  transform (or the identity), only the start corner is translated back by \<open>origin\<close> (the
  parent's position, or (0, 0) without a parent); the end corner stays as the transform
  returned it. The returned end corner therefore differs from the symmetric placement,
  the transformed end corner plus \<open>origin\<close>, exactly when adding \<open>origin\<close> changes the
  transformed end corner in at least one coordinate: for a parent with a non-zero position
  it differs unless rounding absorbs the offset in both coordinates.
\<close>

theorem bounding_box_offset_rule:
  "fst (bounding_box E f) =
     (get_text_box E f)
       \<lparr>start := add (transform (parent_transform f) (mirrored_begin E f)) (origin f),
        end := transform (parent_transform f) (mirrored_end E f)\<rparr>
   \<and> (end (fst (bounding_box E f))
        \<noteq> add (transform (parent_transform f) (mirrored_end E f)) (origin f)
      \<longleftrightarrow>
        x (transform (parent_transform f) (mirrored_end E f)) + x (origin f)
          \<noteq> x (transform (parent_transform f) (mirrored_end E f))
        \<or> y (transform (parent_transform f) (mirrored_end E f)) + y (origin f)
          \<noteq> y (transform (parent_transform f) (mirrored_end E f)))"
proof -
  let ?e = "transform (parent_transform f) (mirrored_end E f)"
  have c: "fst (bounding_box E f) =
     (get_text_box E f)
       \<lparr>start := add (transform (parent_transform f) (mirrored_begin E f)) (origin f),
        end := ?e\<rparr>"
    by (simp add: bounding_box_corners)
  have "?e = add ?e (origin f)
      \<longleftrightarrow> x ?e + x (origin f) = x ?e \<and> y ?e + y (origin f) = y ?e"
    by (cases ?e) (auto simp add: add_def)
  with c show ?thesis by auto
qed

text \<open>
  A field at (90, 5) with the text box (90, 4) to (100, 5), under a parent at (1.27, 0)
  with the transform KiCad gives an unrotated symbol. The transformed end corner has the
  x coordinate 98.73, and adding 1.27 gives 100: the addition is rounded, not absorbed,
  and the returned end corner differs from the symmetric placement.
\<close>

theorem bounding_box_offset_rule_witness:
  "val (x (transform (identity\<lparr>e4 := - 1\<rparr>)
       (mirrored_end (unrotated \<lparr>start = vec 90 4, end = vec 100 5\<rparr>)
         (field_at (vec 90 5)
           (Some \<lparr>Parent.position = vec (127 / 100) 0,
                  Parent.transform = identity\<lparr>e4 := - 1\<rparr>\<rparr>)))))
     = 6947506112660767 / 70368744177664
   \<and> val (literal (6947506112660767 / 70368744177664) + literal (127 / 100)) = 100
   \<and> \<not> exact_add (literal (6947506112660767 / 70368744177664)) (literal (127 / 100))
   \<and> end (fst (bounding_box (unrotated \<lparr>start = vec 90 4, end = vec 100 5\<rparr>)
        (field_at (vec 90 5)
          (Some \<lparr>Parent.position = vec (127 / 100) 0,
                 Parent.transform = identity\<lparr>e4 := - 1\<rparr>\<rparr>))))
       \<noteq> add (transform (identity\<lparr>e4 := - 1\<rparr>)
               (mirrored_end (unrotated \<lparr>start = vec 90 4, end = vec 100 5\<rparr>)
                 (field_at (vec 90 5)
                   (Some \<lparr>Parent.position = vec (127 / 100) 0,
                          Parent.transform = identity\<lparr>e4 := - 1\<rparr>\<rparr>))))
             (vec (127 / 100) 0)"
proof -
  let ?p = "\<lparr>Parent.position = vec (127 / 100) 0, Parent.transform = identity\<lparr>e4 := - 1\<rparr>\<rparr>"
  let ?E = "unrotated \<lparr>start = vec 90 4, end = vec 100 5\<rparr>"
  let ?f = "field_at (vec 90 5) (Some ?p)"
  let ?t = "transform (parent_transform ?f) (mirrored_end ?E ?f)"
  have o: "origin ?f = vec (127 / 100) 0" "parent_transform ?f = identity\<lparr>e4 := - 1\<rparr>"
    by (simp_all add: origin_def parent_transform_def field_at_def)
  have a: "x ?t = literal (6947506112660767 / 70368744177664)"
    by code_simp
  have b: "val (literal (6947506112660767 / 70368744177664) + literal (127 / 100)) = 100"
    "val (literal (6947506112660767 / 70368744177664)) = 6947506112660767 / 70368744177664"
    by code_simp+
  have c: "\<not> exact_add (literal (6947506112660767 / 70368744177664)) (literal (127 / 100))"
    by code_simp
  from b have ne: "literal (6947506112660767 / 70368744177664) + literal (127 / 100)
      \<noteq> literal (6947506112660767 / 70368744177664)"
    by auto
  have ox: "x (origin ?f) = literal (127 / 100)"
    by (simp only: o) (simp add: vec_def)
  have "x ?t + x (origin ?f) \<noteq> x ?t"
    unfolding a ox by (rule ne)
  with bounding_box_offset_rule [of ?E ?f]
  have d: "end (fst (bounding_box ?E ?f)) \<noteq> add ?t (origin ?f)"
    by blast
  from a b(2) have e: "val (x ?t) = 6947506112660767 / 70368744177664"
    by simp
  from d e b(1) c show ?thesis
    unfolding o by simp
qed

text \<open>
  C2 as stated fails where rounding absorbs the offset. The parent is at (1, 0) with the
  identity transform, the text box runs from (0, 0) to (18014398509481984, 0), which is 2
  to the power 54. The position of the parent is not zero, and yet the returned end corner
  is the transformed end corner plus the origin: adding 1 to 18014398509481984 gives
  18014398509481984 again in doubles.
\<close>

theorem bounding_box_offset_counterexample:
  "Parent.position \<lparr>Parent.position = vec 1 0, Parent.transform = identity\<rparr>
     \<noteq> \<lparr>x = 0, y = 0\<rparr>
   \<and> end (fst (bounding_box (unrotated \<lparr>start = vec 0 0, end = vec 18014398509481984 0\<rparr>)
        (field_at (vec 0 0)
          (Some \<lparr>Parent.position = vec 1 0, Parent.transform = identity\<rparr>))))
       = add (transform identity
               (mirrored_end (unrotated \<lparr>start = vec 0 0, end = vec 18014398509481984 0\<rparr>)
                 (field_at (vec 0 0)
                   (Some \<lparr>Parent.position = vec 1 0, Parent.transform = identity\<rparr>))))
             (vec 1 0)"
  by code_simp







text \<open>
  C9. The accessors write to the console: \<open>bounding_box\<close> logs the initial text box on
  every call, the two \<open>is_..._justify_flipped\<close> accessors inherit that line through their
  call of \<open>bounding_box\<close>, and \<open>is_vert_justify_flipped\<close> adds a line of its own. So the
  accessors are not free of side effects, whatever the field.
\<close>

theorem console_output_rule:
  "snd (bounding_box E f) = [Initial_bb (get_text_box E f)]
   \<and> snd (is_horiz_justify_flipped E f) = [Initial_bb (get_text_box E f)]
   \<and> snd (is_vert_justify_flipped E f) =
       [Initial_bb (get_text_box E f), Draw_rot (degrees (draw_rotation f)) (box_center E f)]
   \<and> snd (effective_horiz_justify E f) =
       (if h_align f = h_center then [] else [Initial_bb (get_text_box E f)])
   \<and> snd (effective_vert_justify E f) =
       (if v_align f = v_center then []
        else [Initial_bb (get_text_box E f),
              Draw_rot (degrees (draw_rotation f)) (box_center E f)])"
  by (simp add: bounding_box_corners is_horiz_justify_flipped_def is_vert_justify_flipped_def
      effective_horiz_justify_def effective_vert_justify_def
      box_center_def Let_def split_beta split: HAlign.splits VAlign.splits)

end
